theory Spec2Isabelle
  imports Main "HOL-Library.Word"
begin

unbundle bit_operations_syntax

section \<open>xbee/frame.py: the API frame and its checksum\<close>

text \<open>
  The library is Python 2 code: a frame's \<open>data\<close> is a \<open>str\<close>, a sequence of
  one-byte characters. A byte is an \<open>8 word\<close>; Python's integers are unbounded, so the
  running total is an \<open>int\<close>.
\<close>

type_synonym byte = "8 word"

datatype error = ValueError

text \<open>\<open>ord\<close> of a one-character string: its code, between 0 and 255.\<close>

definition ord :: "byte \<Rightarrow> int" where
  "ord b = uint b"

text \<open>\<open>chr(i)\<close> raises ValueError unless \<open>i\<close> is in \<open>range(256)\<close>.\<close>

definition chr :: "int \<Rightarrow> error + byte" where
  "chr i = (if 0 \<le> i \<and> i < 256 then Inr (word_of_int i) else Inl ValueError)"

text \<open>\<open>class APIFrame\<close>: the constructor stores \<open>data\<close>, its only attribute.\<close>

record APIFrame =
  data :: "byte list"

text \<open>
  A method call runs on the object and on the method's local variable \<open>total\<close>;
  both are threaded through the statements of the body, and the method returns its
  result together with the object as the body left it.
\<close>

record call_state =
  self :: APIFrame
  total :: int

text \<open>The body of both loops: \<open>total += ord(byte)\<close>.\<close>

definition add_byte :: "byte \<Rightarrow> call_state \<Rightarrow> call_state" where
  "add_byte b st = st\<lparr>total := total st + ord b\<rparr>"

text \<open>
  \<open>APIFrame.checksum\<close>: \<open>total = 0\<close>; the loop over \<open>self.data\<close>;
  \<open>total = total & 0xFF\<close>; \<open>return chr(0xFF - total)\<close>.
\<close>

definition checksum_call :: "APIFrame \<Rightarrow> (error + byte) \<times> APIFrame" where
  "checksum_call fr =
     (let st0 = \<lparr>self = fr, total = 0\<rparr>;
          st1 = fold add_byte (data (self st0)) st0;
          st2 = st1\<lparr>total := total st1 AND 0xFF\<rparr>
      in (chr (0xFF - total st2), self st2))"

definition checksum :: "APIFrame \<Rightarrow> error + byte" where
  "checksum fr = fst (checksum_call fr)"

text \<open>
  \<open>APIFrame.verify\<close>: \<open>total = 0\<close>; the loop over \<open>self.data\<close>;
  \<open>total += ord(chksum)\<close>; \<open>total &= 0xFF\<close>; \<open>return total == 0xFF\<close>.
\<close>

definition verify_call :: "APIFrame \<Rightarrow> byte \<Rightarrow> bool \<times> APIFrame" where
  "verify_call fr chksum =
     (let st0 = \<lparr>self = fr, total = 0\<rparr>;
          st1 = fold add_byte (data (self st0)) st0;
          st2 = st1\<lparr>total := total st1 + ord chksum\<rparr>;
          st3 = st2\<lparr>total := total st2 AND 0xFF\<rparr>
      in (total st3 = 0xFF, self st3))"

definition verify :: "APIFrame \<Rightarrow> byte \<Rightarrow> bool" where
  "verify fr chksum = fst (verify_call fr chksum)"

text \<open>The sum of all bytes of a payload, as an unbounded integer.\<close>

definition byte_sum :: "byte list \<Rightarrow> int" where
  "byte_sum P = sum_list (map uint P)"

section \<open>xbee/zigbee.py: the command and response tables\<close>

text \<open>
  A field of a response structure is a dictionary with the keys \<open>name\<close> and
  \<open>len\<close>; a field of a command has the key \<open>default\<close> as well. \<open>len\<close> is a
  byte count or \<open>None\<close> (the field takes the remaining bytes); \<open>default\<close> is a
  byte string or \<open>None\<close>.
\<close>

record field =
  name :: string
  len :: "nat option"

record cmd_field = field +
  default_value :: "byte list option"

text \<open>
  A response: its \<open>name\<close>, its \<open>structure\<close> and, where the dictionary has the key,
  the field named by \<open>parse_as_io_samples\<close>.
\<close>

record response =
  response_name :: string
  "structure" :: "field list"
  parse_as_io_samples :: "string option"

definition cf :: "string \<Rightarrow> nat option \<Rightarrow> byte list option \<Rightarrow> cmd_field" where
  "cf n l d = \<lparr>name = n, len = l, default_value = d\<rparr>"

definition rf :: "string \<Rightarrow> nat option \<Rightarrow> field" where
  "rf n l = \<lparr>name = n, len = l\<rparr>"

text \<open>
  \<open>ZigBee.api_commands\<close>, a dictionary from the command's name to its fields, as an
  association list in the order of the source. \<open>struct.pack('>Q', 0)\<close> is eight zero
  bytes.
\<close>

definition api_commands :: "(string \<times> cmd_field list) list" where
  "api_commands =
    [(''at'',
        [cf ''id'' (Some 1) (Some [0x08]),
         cf ''frame_id'' (Some 1) (Some [0x01]),
         cf ''command'' (Some 2) None,
         cf ''parameter'' None None]),
     (''queued_at'',
        [cf ''id'' (Some 1) (Some [0x09]),
         cf ''frame_id'' (Some 1) (Some [0x01]),
         cf ''command'' (Some 2) None,
         cf ''parameter'' None None]),
     (''remote_at'',
        [cf ''id'' (Some 1) (Some [0x17]),
         cf ''frame_id'' (Some 1) (Some [0x00]),
         cf ''dest_addr_long'' (Some 8) (Some [0, 0, 0, 0, 0, 0, 0, 0]),
         cf ''dest_addr'' (Some 2) (Some [0xFF, 0xFE]),
         cf ''options'' (Some 1) (Some [0x02]),
         cf ''command'' (Some 2) None,
         cf ''parameter'' None None]),
     (''tx'',
        [cf ''id'' (Some 1) (Some [0x10]),
         cf ''frame_id'' (Some 1) (Some [0x01]),
         cf ''dest_addr_long'' (Some 8) None,
         cf ''dest_addr'' (Some 2) None,
         cf ''broadcast_radius'' (Some 1) (Some [0x00]),
         cf ''options'' (Some 1) (Some [0x00]),
         cf ''data'' None None]),
     (''tx_explicit'',
        [cf ''id'' (Some 1) (Some [0x11]),
         cf ''frame_id'' (Some 1) (Some [0x00]),
         cf ''dest_addr_long'' (Some 8) None,
         cf ''dest_addr'' (Some 2) None,
         cf ''src_endpoint'' (Some 1) None,
         cf ''dest_endpoint'' (Some 1) None,
         cf ''cluster'' (Some 1) None,
         cf ''profile'' (Some 1) None,
         cf ''broadcast_radius'' (Some 1) (Some [0x00]),
         cf ''options'' (Some 1) (Some [0x00]),
         cf ''data'' None None])]"

text \<open>
  \<open>ZigBee.api_responses\<close>, a dictionary from the id byte (a one-character string) to
  the response, in the order of the source.
\<close>

definition api_responses :: "(byte list \<times> response) list" where
  "api_responses =
    [([0x90], \<lparr>response_name = ''rx'',
        structure =
          [rf ''source_addr_long'' (Some 8),
           rf ''source_addr'' (Some 2),
           rf ''options'' (Some 1),
           rf ''rf_data'' None],
        parse_as_io_samples = None\<rparr>),
     ([0x91], \<lparr>response_name = ''rx_explicit'',
        structure =
          [rf ''source_addr_long'' (Some 8),
           rf ''source_addr'' (Some 2),
           rf ''source_endpoint'' (Some 1),
           rf ''dest_endpoint'' (Some 1),
           rf ''cluster'' (Some 2),
           rf ''profile'' (Some 2),
           rf ''options'' (Some 1),
           rf ''rf_data'' None],
        parse_as_io_samples = None\<rparr>),
     ([0x92], \<lparr>response_name = ''rx_io_data_long_addr'',
        structure =
          [rf ''source_addr_long'' (Some 8),
           rf ''source_addr'' (Some 2),
           rf ''options'' (Some 1),
           rf ''samples'' None],
        parse_as_io_samples = Some ''samples''\<rparr>),
     ([0x8b], \<lparr>response_name = ''tx_status'',
        structure =
          [rf ''frame_id'' (Some 1),
           rf ''dest_addr'' (Some 2),
           rf ''retries'' (Some 1),
           rf ''deliver_status'' (Some 1),
           rf ''discover_status'' (Some 1)],
        parse_as_io_samples = None\<rparr>),
     ([0x8a], \<lparr>response_name = ''status'',
        structure =
          [rf ''status'' (Some 1)],
        parse_as_io_samples = None\<rparr>),
     ([0x88], \<lparr>response_name = ''at_response'',
        structure =
          [rf ''frame_id'' (Some 1),
           rf ''command'' (Some 2),
           rf ''status'' (Some 1),
           rf ''parameter'' None],
        parse_as_io_samples = None\<rparr>),
     ([0x97], \<lparr>response_name = ''remote_at_response'',
        structure =
          [rf ''frame_id'' (Some 1),
           rf ''source_addr_long'' (Some 8),
           rf ''source_addr'' (Some 2),
           rf ''command'' (Some 2),
           rf ''status'' (Some 1),
           rf ''parameter'' None],
        parse_as_io_samples = None\<rparr>),
     ([0x95], \<lparr>response_name = ''node_id_indicator'',
        structure =
          [rf ''sender_addr_long'' (Some 8),
           rf ''sender_addr'' (Some 2),
           rf ''options'' (Some 1),
           rf ''source_addr'' (Some 2),
           rf ''source_addr_long'' (Some 8),
           rf ''node_id'' (Some 0),
           rf ''parent_source_addr'' (Some 2),
           rf ''device_type'' (Some 1),
           rf ''source_event'' (Some 1),
           rf ''digi_profile_id'' (Some 2),
           rf ''manufacturer_id'' (Some 2)],
        parse_as_io_samples = None\<rparr>)]"

text \<open>
  A field that takes the remaining bytes (\<open>len\<close> is \<open>None\<close>) occurs at most once
  in a sequence of lengths, and nowhere before the last position.
\<close>

definition remaining_only_last :: "nat option list \<Rightarrow> bool" where
  "remaining_only_last ls \<longleftrightarrow> count_list ls None \<le> 1 \<and> None \<notin> set (butlast ls)"

section \<open>The frame envelope\<close>

text \<open>
  Modelled from the spec: the reserved bytes of the wire format. The module that wraps
  and unwraps frames (\<open>xbee/base.py\<close>, which \<open>zigbee.py\<close> imports) and its
  constants are not among the sources, and the specification gives no values: the
  delimiter, the escape marker, the two flow-control bytes and the constant of the XOR
  transform are parameters of the codec.
\<close>

record wire =
  delimiter :: byte
  escape_marker :: byte
  flow_on :: byte
  flow_off :: byte
  escape_xor :: byte

text \<open>
  Modelled from the spec: one instance of the constants, for concrete frames. The
  specification gives no values; these are the ones of the XBee API documentation.
\<close>

definition xbee_wire :: wire where
  "xbee_wire = \<lparr>delimiter = 0x7E, escape_marker = 0x7D, flow_on = 0x11,
     flow_off = 0x13, escape_xor = 0x20\<rparr>"

text \<open>
  Modelled from the spec: the reserved bytes are the delimiter, the escape marker and
  the two flow-control bytes.
\<close>

definition reserved :: "wire \<Rightarrow> byte \<Rightarrow> bool" where
  "reserved w b \<longleftrightarrow>
     b = delimiter w \<or> b = escape_marker w \<or> b = flow_on w \<or> b = flow_off w"

text \<open>
  Modelled from the spec: escaping, missing from the sources. A reserved byte becomes
  the escape marker followed by the byte XORed with the constant.
\<close>

fun escape :: "wire \<Rightarrow> byte list \<Rightarrow> byte list" where
  "escape w [] = []"
| "escape w (b # bs) =
     (if reserved w b then escape_marker w # (b XOR escape_xor w) # escape w bs
      else b # escape w bs)"

text \<open>
  Modelled from the spec: escaping is applied only when escaping mode is enabled;
  otherwise the bytes go out as they are.
\<close>

definition on_wire :: "wire \<Rightarrow> bool \<Rightarrow> byte list \<Rightarrow> byte list" where
  "on_wire w escaped bs = (if escaped then escape w bs else bs)"

text \<open>
  Modelled from the spec: the length field, two bytes, big-endian. Two bytes hold a
  count below 65536; the specification does not say what \<open>wrap\<close> does with a longer
  payload, and the model keeps the low 16 bits of its length.
\<close>

definition length_field :: "nat \<Rightarrow> byte list" where
  "length_field n = [of_nat (n div 256), of_nat (n mod 256)]"

text \<open>
  Modelled from the spec: the byte count that the two bytes of a length field stand
  for, the first byte the high one.
\<close>

fun field_length :: "byte list \<Rightarrow> nat" where
  "field_length [] = 0"
| "field_length [lo] = unat lo"
| "field_length (hi # lo # _) = unat hi * 256 + unat lo"

text \<open>
  Modelled from the spec: \<open>wrap\<close>, missing from the sources. It emits the delimiter,
  the length of the payload, the payload and the checksum of \<open>APIFrame.checksum\<close>;
  everything after the delimiter is escaped when escaping mode is enabled, the
  delimiter itself never. An error of \<open>checksum\<close> is passed on.
\<close>

definition wrap :: "wire \<Rightarrow> bool \<Rightarrow> byte list \<Rightarrow> error + byte list" where
  "wrap w escaped payload =
     (case checksum \<lparr>data = payload\<rparr> of
        Inl e \<Rightarrow> Inl e
      | Inr c \<Rightarrow>
          Inr (delimiter w # on_wire w escaped (length_field (length payload) @ payload @ [c])))"

text \<open>
  Modelled from the spec: reading one logical byte from the stream, un-escaping on
  the fly when escaping mode is enabled. \<open>None\<close> when the stream ends first.
\<close>

fun read_byte :: "wire \<Rightarrow> bool \<Rightarrow> byte list \<Rightarrow> (byte \<times> byte list) option" where
  "read_byte w escaped [] = None"
| "read_byte w escaped (b # bs) =
     (if escaped \<and> b = escape_marker w
      then (case bs of [] \<Rightarrow> None | c # cs \<Rightarrow> Some (c XOR escape_xor w, cs))
      else Some (b, bs))"

text \<open>
  Modelled from the spec: reading \<open>n\<close> logical bytes, one after the other.
\<close>

fun read_bytes :: "wire \<Rightarrow> bool \<Rightarrow> nat \<Rightarrow> byte list \<Rightarrow> (byte list \<times> byte list) option" where
  "read_bytes w escaped 0 s = Some ([], s)"
| "read_bytes w escaped (Suc n) s =
     (case read_byte w escaped s of
        None \<Rightarrow> None
      | Some (b, s') \<Rightarrow>
          (case read_bytes w escaped n s' of
             None \<Rightarrow> None
           | Some (bs, s'') \<Rightarrow> Some (b # bs, s'')))"

text \<open>
  Modelled from the spec: the three outcomes of \<open>unwrap\<close>.
\<close>

datatype unwrap_result = Payload "byte list" | NeedMoreData | ChecksumError

text \<open>
  Modelled from the spec: \<open>unwrap\<close>, missing from the sources. It consumes one
  delimiter (the bytes before it are passed over), reads the two bytes of the length,
  that many bytes of payload and one checksum byte, and verifies the checksum with
  \<open>APIFrame.verify\<close>. A stream that ends before the frame is complete gives
  \<open>NeedMoreData\<close>.
\<close>

definition unwrap :: "wire \<Rightarrow> bool \<Rightarrow> byte list \<Rightarrow> unwrap_result" where
  "unwrap w escaped stream =
     (case dropWhile (\<lambda>b. b \<noteq> delimiter w) stream of
        [] \<Rightarrow> NeedMoreData
      | d # s0 \<Rightarrow>
          (case read_bytes w escaped 2 s0 of
             None \<Rightarrow> NeedMoreData
           | Some (lf, s1) \<Rightarrow>
               (case read_bytes w escaped (field_length lf) s1 of
                  None \<Rightarrow> NeedMoreData
                | Some (payload, s2) \<Rightarrow>
                    (case read_byte w escaped s2 of
                       None \<Rightarrow> NeedMoreData
                     | Some (c, s3) \<Rightarrow>
                         if verify \<lparr>data = payload\<rparr> c then Payload payload
                         else ChecksumError))))"

text \<open>
  Modelled from the spec: \<open>unwrap(wrap(P))\<close>, with the same escaping mode on both
  sides.
\<close>

definition unwrap_wrapped :: "wire \<Rightarrow> bool \<Rightarrow> byte list \<Rightarrow> error + unwrap_result" where
  "unwrap_wrapped w escaped payload =
     (case wrap w escaped payload of
        Inl e \<Rightarrow> Inl e
      | Inr frame \<Rightarrow> Inr (unwrap w escaped frame))"

section \<open>The dispatch router\<close>

text \<open>
  Modelled from the spec: a registration, missing from the sources (the module
  \<open>xbee/helpers/dispatch\<close> is present only through its tests). It has a name, a
  callback and a predicate on decoded messages. A callback is an opaque callable
  \<open>'cb\<close>.
\<close>

record ('cb, 'msg) registration =
  reg_name :: string
  callback :: 'cb
  predicate :: "'msg \<Rightarrow> bool"

text \<open>
  Modelled from the spec: one invocation \<open>callback(name, message)\<close>.
\<close>

datatype ('cb, 'msg) call = Call (callee: 'cb) (call_name: string) (call_message: 'msg)

text \<open>
  Modelled from the spec: \<open>register\<close>, missing from the sources. A registration of
  the same name is replaced; the new one is the last of the registry.
\<close>

definition register ::
  "string \<Rightarrow> 'cb \<Rightarrow> ('msg \<Rightarrow> bool) \<Rightarrow> ('cb, 'msg) registration list
     \<Rightarrow> ('cb, 'msg) registration list" where
  "register n cb p regs =
     filter (\<lambda>r. reg_name r \<noteq> n) regs @ [\<lparr>reg_name = n, callback = cb, predicate = p\<rparr>]"

text \<open>
  Modelled from the spec: one dispatch round, missing from the sources. For each
  registration in registration order the predicate is evaluated on the message and,
  where it holds, the callback is invoked with the registration's name and the
  message. The result is the sequence of calls made.
\<close>

fun dispatch_round ::
  "('cb, 'msg) registration list \<Rightarrow> 'msg \<Rightarrow> ('cb, 'msg) call list" where
  "dispatch_round [] msg = []"
| "dispatch_round (r # rs) msg =
     (if predicate r msg then Call (callback r) (reg_name r) msg # dispatch_round rs msg
      else dispatch_round rs msg)"

section \<open>The summing loop\<close>

lemma fold_add_byte_total:
  "total (fold add_byte bs st) = total st + byte_sum bs"
  by (induction bs arbitrary: st) (simp_all add: add_byte_def ord_def byte_sum_def)

lemma fold_add_byte_self:
  "self (fold add_byte bs st) = self st"
  by (induction bs arbitrary: st) (simp_all add: add_byte_def)

lemma and_0xFF_mod: "(x::int) AND 0xFF = x mod 256"
proof -
  have "x AND mask 8 = take_bit 8 x"
    by (simp only: take_bit_eq_mask)
  then show ?thesis
    by (simp add: take_bit_eq_mod mask_eq_exp_minus_1)
qed

lemma checksum_value:
  "checksum fr = Inr (word_of_int (0xFF - byte_sum (data fr) mod 256))"
proof -
  let ?s = "byte_sum (data fr)"
  have "0 \<le> ?s mod 256" and "?s mod 256 < 256"
    by simp_all
  then have rng: "0 \<le> 0xFF - ?s mod 256 \<and> 0xFF - ?s mod 256 < 256"
    by linarith
  have "checksum fr = chr (0xFF - ?s mod 256)"
    by (simp add: checksum_def checksum_call_def Let_def fold_add_byte_total and_0xFF_mod)
  also have "\<dots> = Inr (word_of_int (0xFF - ?s mod 256))"
    by (simp only: chr_def rng simp_thms if_True)
  finally show ?thesis .
qed

lemma verify_value:
  "verify fr c \<longleftrightarrow> (byte_sum (data fr) + uint c) mod 256 = 255"
  by (simp add: verify_def verify_call_def Let_def fold_add_byte_total and_0xFF_mod ord_def)

lemma uint_byte_of_int: "uint (word_of_int k :: byte) = take_bit 8 k"
  by (simp add: uint_word_of_int_eq)

lemma uint_checksum_byte:
  "uint (word_of_int (0xFF - s mod 256) :: byte) = 0xFF - s mod 256"
proof -
  have "0 \<le> s mod 256" and "s mod 256 < 256" by simp_all
  then have "0 \<le> 0xFF - s mod 256" and "0xFF - s mod 256 < 2 ^ 8" by simp_all
  then have "take_bit 8 (0xFF - s mod 256) = 0xFF - s mod 256"
    by (rule take_bit_int_eq_self)
  then show ?thesis
    by (simp only: uint_byte_of_int)
qed

lemma sum_mod_255:
  fixes a u :: int
  assumes "0 \<le> a" "a < 256" "0 \<le> u" "u < 256"
  shows "(a + u) mod 256 = 255 \<longleftrightarrow> u = 255 - a"
proof (cases "a + u < 256")
  case True
  with assms have "(a + u) mod 256 = a + u" by simp
  then show ?thesis by linarith
next
  case False
  with assms have "0 \<le> a + u - 256" and "a + u - 256 < 256" by linarith+
  then have "(a + u - 256) mod 256 = a + u - 256" by (rule mod_pos_pos_trivial)
  then have "(a + u) mod 256 = a + u - 256" by (simp only: minus_mod_self2)
  then show ?thesis using False assms by linarith
qed

text \<open>The one byte that brings a sum \<open>s\<close> to a low byte of \<open>0xFF\<close>.\<close>

lemma verify_iff_byte:
  "(s + uint (c::byte)) mod 256 = 255 \<longleftrightarrow> c = word_of_int (0xFF - s mod 256)"
proof -
  have u: "0 \<le> uint c" "uint c < 256" using uint_lt2p [of c] by simp_all
  have a: "0 \<le> s mod 256" "s mod 256 < 256" by simp_all
  have "(s + uint c) mod 256 = (s mod 256 + uint c) mod 256"
    by (simp only: mod_add_left_eq)
  then have "(s + uint c) mod 256 = 255 \<longleftrightarrow> uint c = 255 - s mod 256"
    using sum_mod_255 [OF a u] by simp
  also have "\<dots> \<longleftrightarrow> uint c = uint (word_of_int (0xFF - s mod 256) :: byte)"
    by (simp only: uint_checksum_byte)
  also have "\<dots> \<longleftrightarrow> c = word_of_int (0xFF - s mod 256)"
    by (simp only: word_uint_eq_iff)
  finally show ?thesis .
qed

section \<open>The checksum\<close>

text \<open>
  C1. For every byte sequence, \<open>checksum\<close> returns a byte, and \<open>verify\<close> of the same
  frame with that byte is true.
\<close>

theorem checksum_verifies: "\<exists>c. checksum fr = Inr c \<and> verify fr c"
  by (simp only: checksum_value verify_value verify_iff_byte sum.inject simp_thms)

text \<open>
  C2. For every byte sequence \<open>P\<close>, \<open>checksum\<close> returns a single byte, and its value
  is \<open>0xFF\<close> minus the low byte of the sum of all bytes of \<open>P\<close>.
\<close>

theorem checksum_low_byte:
  "\<exists>c. checksum \<lparr>data = P\<rparr> = Inr c \<and> uint c = 0xFF - byte_sum P mod 256"
  using uint_checksum_byte [of "byte_sum P"] by (simp add: checksum_value)

text \<open>
  C3. For every byte sequence \<open>P\<close> and every byte \<open>c\<close>, \<open>verify\<close> is true exactly
  when \<open>(sum(P) + c) & 0xFF\<close> is \<open>0xFF\<close>.
\<close>

theorem verify_low_byte:
  "verify \<lparr>data = P\<rparr> c \<longleftrightarrow> (byte_sum P + uint c) AND 0xFF = 0xFF"
  by (simp add: verify_value and_0xFF_mod)

text \<open>
  C9. For every byte sequence and every byte \<open>c\<close>, \<open>verify\<close> is true exactly when
  \<open>c\<close> is the byte that \<open>checksum\<close> returns: the checksum is the only byte that
  verifies.
\<close>

theorem verify_iff_checksum: "verify fr c \<longleftrightarrow> checksum fr = Inr c"
proof -
  have "verify fr c \<longleftrightarrow> c = word_of_int (0xFF - byte_sum (data fr) mod 256)"
    by (simp only: verify_value verify_iff_byte)
  also have "\<dots> \<longleftrightarrow> checksum fr = Inr c"
    by (auto simp only: checksum_value sum.inject)
  finally show ?thesis .
qed

text \<open>
  C10. Neither method modifies the frame: the object that \<open>checksum()\<close> and
  \<open>verify(c)\<close> leave behind is the one they were called on, \<open>data\<close> included.
\<close>

theorem methods_keep_frame:
  "snd (checksum_call fr) = fr \<and> snd (verify_call fr c) = fr
     \<and> data (snd (checksum_call fr)) = data fr \<and> data (snd (verify_call fr c)) = data fr"
  by (simp add: checksum_call_def verify_call_def Let_def fold_add_byte_self)

section \<open>The tables\<close>

text \<open>
  C7. Every entry of \<open>api_commands\<close> starts with the message-id field: its name is
  \<open>id\<close>, its length is 1 and its default is a byte string of one byte, not \<open>None\<close>,
  so that the caller supplies no value for it.
\<close>

theorem command_first_field_is_id:
  "(cmd, fs) \<in> set api_commands \<Longrightarrow>
     \<exists>f rest d. fs = f # rest \<and> name f = ''id'' \<and> len f = Some 1
        \<and> default_value f = Some [d]"
  by (auto simp add: api_commands_def cf_def)

theorem command_first_field_is_id_witness:
  "last api_commands \<in> set api_commands
   \<and> fst (last api_commands) = ''tx_explicit''
   \<and> (\<exists>f rest d. snd (last api_commands) = f # rest \<and> name f = ''id'' \<and> len f = Some 1
        \<and> default_value f = Some [d])"
proof -
  have m: "last api_commands \<in> set api_commands"
    by (simp add: api_commands_def)
  then have h: "(fst (last api_commands), snd (last api_commands)) \<in> set api_commands"
    by (simp only: prod.collapse)
  have n: "fst (last api_commands) = ''tx_explicit''"
    by (simp add: api_commands_def)
  from command_first_field_is_id [OF h] m n show ?thesis
    by blast
qed

lemma remaining_only_last_examples:
  "remaining_only_last [Some 2, None]"
  "\<not> remaining_only_last [None, Some 2]"
  "\<not> remaining_only_last [None, None]"
  by (simp_all add: remaining_only_last_def)

lemma commands_remaining_last:
  "(cmd, fs) \<in> set api_commands \<Longrightarrow> remaining_only_last (map len fs)"
  by (auto simp add: api_commands_def cf_def remaining_only_last_def)

lemma responses_remaining_last:
  "(i, r) \<in> set api_responses \<Longrightarrow> remaining_only_last (map len (structure r))"
  by (auto simp add: api_responses_def rf_def remaining_only_last_def)

text \<open>
  C8. In every entry of \<open>api_commands\<close> and in the structure of every entry of
  \<open>api_responses\<close>, a field whose \<open>len\<close> is \<open>None\<close> occurs at most once, and only
  as the last field.
\<close>

theorem remaining_length_only_last:
  "(\<forall>(cmd, fs) \<in> set api_commands. remaining_only_last (map len fs)) \<and>
   (\<forall>(i, r) \<in> set api_responses. remaining_only_last (map len (structure r)))"
  using commands_remaining_last responses_remaining_last by blast

theorem remaining_length_only_last_witness:
  "last api_commands \<in> set api_commands
   \<and> remaining_only_last (map len (snd (last api_commands)))
   \<and> last api_responses \<in> set api_responses
   \<and> remaining_only_last (map len (structure (snd (last api_responses))))"
proof -
  have c: "last api_commands \<in> set api_commands"
    by (simp add: api_commands_def)
  have r: "last api_responses \<in> set api_responses"
    by (simp add: api_responses_def)
  from remaining_length_only_last c r show ?thesis
    by (simp only: case_prod_unfold)
qed

section \<open>Escaping and reading back\<close>

lemma escape_append: "escape w (xs @ ys) = escape w xs @ escape w ys"
  by (induction xs) simp_all

lemma on_wire_append: "on_wire w e (xs @ ys) = on_wire w e xs @ on_wire w e ys"
  by (simp add: on_wire_def escape_append)

lemma on_wire_Cons: "on_wire w e (b # bs) = on_wire w e [b] @ on_wire w e bs"
  using on_wire_append [of w e "[b]" bs] by simp

lemma xor_twice: "(b XOR x) XOR x = (b::byte)"
  by (simp add: xor.assoc)

lemma read_byte_on_wire:
  "read_byte w e (on_wire w e [b] @ rest) = Some (b, rest)"
  by (simp add: on_wire_def reserved_def xor_twice)

lemma read_bytes_on_wire:
  "read_bytes w e (length bs) (on_wire w e bs @ rest) = Some (bs, rest)"
proof (induction bs)
  case Nil
  then show ?case by (simp add: on_wire_def)
next
  case (Cons b bs)
  have "on_wire w e (b # bs) @ rest = on_wire w e [b] @ (on_wire w e bs @ rest)"
    using on_wire_Cons [of w e b bs] by simp
  then show ?case
    using Cons.IH by (simp add: read_byte_on_wire del: read_byte.simps)
qed

lemma read_bytes_length:
  "read_bytes w e n s = Some (bs, s') \<Longrightarrow> length bs = n"
  by (induction n arbitrary: s bs s') (auto split: option.splits prod.splits)

section \<open>The length field\<close>

lemma length_length_field: "length (length_field n) = 2"
  by (simp add: length_field_def)

lemma field_length_length_field:
  assumes "n < 65536"
  shows "field_length (length_field n) = n"
proof -
  from assms have "n div 256 < 256" by simp
  then have hi: "unat (of_nat (n div 256) :: byte) = n div 256"
    by (simp add: unat_of_nat)
  have lo: "unat (of_nat (n mod 256) :: byte) = n mod 256"
    by (simp add: unat_of_nat)
  show ?thesis
    by (simp add: length_field_def hi lo)
qed

lemma field_length_bound: "length lf = 2 \<Longrightarrow> field_length lf < 65536"
proof -
  assume "length lf = 2"
  then obtain hi lo where lf: "lf = [hi, lo]"
    by (cases lf; cases "tl lf") auto
  have "unat hi < 256" "unat lo < 256"
    using unsigned_less [of hi] unsigned_less [of lo] by simp_all
  then show ?thesis by (simp add: lf)
qed

section \<open>Wrapping and unwrapping\<close>

lemma checksum_byte_verifies:
  obtains c where "checksum fr = Inr c" and "verify fr c"
proof -
  let ?c = "word_of_int (0xFF - byte_sum (data fr) mod 256) :: byte"
  have "checksum fr = Inr ?c" by (rule checksum_value)
  moreover have "verify fr ?c" by (simp only: verify_value verify_iff_byte)
  ultimately show ?thesis using that by blast
qed

lemma unwrap_frame:
  assumes "verify \<lparr>data = P\<rparr> c" and "length P < 65536"
  shows "unwrap w e (delimiter w # on_wire w e (length_field (length P) @ P @ [c])) = Payload P"
proof -
  let ?lf = "length_field (length P)"
  have parts: "on_wire w e (?lf @ P @ [c]) = on_wire w e ?lf @ (on_wire w e P @ on_wire w e [c])"
    by (simp add: on_wire_append)
  have r1: "read_bytes w e 2 (on_wire w e ?lf @ (on_wire w e P @ on_wire w e [c]))
      = Some (?lf, on_wire w e P @ on_wire w e [c])"
    using read_bytes_on_wire [of w e ?lf] by (simp only: length_length_field)
  have r2: "read_bytes w e (field_length ?lf) (on_wire w e P @ on_wire w e [c])
      = Some (P, on_wire w e [c])"
    using read_bytes_on_wire [of w e P] assms(2) by (simp only: field_length_length_field)
  have r3: "read_byte w e (on_wire w e [c]) = Some (c, [])"
    using read_byte_on_wire [of w e c "[]"] by simp
  show ?thesis
    unfolding unwrap_def parts
    by (simp add: r1 r2 r3 assms(1) del: read_bytes.simps read_byte.simps)
qed

text \<open>
  Whatever the frame, the payload that \<open>unwrap\<close> returns has the length read from
  the two bytes of the length field.
\<close>

lemma unwrap_payload_short:
  "unwrap w e stream = Payload P \<Longrightarrow> length P < 65536"
  by (auto simp add: unwrap_def split: list.splits option.splits prod.splits if_splits
      dest!: read_bytes_length field_length_bound simp del: read_bytes.simps read_byte.simps)

lemma replicate_65536: "replicate 65536 x = x # replicate 65535 x"
proof -
  have "(65536::nat) = Suc 65535" by simp
  then show ?thesis by (simp only: replicate_Suc)
qed

lemma unwrap_zero_length:
  "unwrap w False (delimiter w # 0 # 0 # 0 # rest) = ChecksumError"
  by (simp add: unwrap_def numeral_2_eq_2 verify_value byte_sum_def)

lemma wrap_65536_zeros:
  "\<exists>c. wrap w False (replicate 65536 0)
      = Inr (delimiter w # 0 # 0 # 0 # (replicate 65535 0 @ [c]))"
proof -
  obtain c where c: "checksum \<lparr>data = replicate 65536 0\<rparr> = Inr c"
    using checksum_value by blast
  have "wrap w False (replicate 65536 0)
      = Inr (delimiter w # 0 # 0 # 0 # (replicate 65535 0 @ [c]))"
    unfolding wrap_def c by (simp add: on_wire_def length_field_def replicate_65536)
  then show ?thesis ..
qed

lemma unwrap_wrapped_65536_zeros:
  "unwrap_wrapped w False (replicate 65536 0) = Inr ChecksumError"
proof -
  obtain c where "wrap w False (replicate 65536 0)
      = Inr (delimiter w # 0 # 0 # 0 # (replicate 65535 0 @ [c]))"
    using wrap_65536_zeros by blast
  then show ?thesis
    by (simp only: unwrap_wrapped_def sum.case unwrap_zero_length)
qed

text \<open>
  C4 as stated, for every payload, does not hold: two bytes cannot hold the length of
  65536 bytes, and by \<open>unwrap_payload_short\<close> no frame at all unwraps to a payload
  that long. Here \<open>wrap\<close> writes the length 0, and \<open>unwrap\<close> takes the first byte
  of the payload for the checksum.
\<close>

theorem unwrap_wrap_long_payload:
  "unwrap_wrapped xbee_wire False (replicate 65536 0) \<noteq> Inr (Payload (replicate 65536 0))"
  by (simp only: unwrap_wrapped_65536_zeros sum.inject unwrap_result.distinct simp_thms)

text \<open>
  C4 (as amended). For every payload \<open>P\<close> of fewer than 65536 bytes, the length that
  the two bytes of the length field can hold, unwrapping the frame that wraps \<open>P\<close>
  yields \<open>P\<close>, with escaping mode enabled and with it disabled, whatever the reserved
  bytes and the XOR constant are.
\<close>

theorem unwrap_wrap_roundtrip:
  "length P < 65536 \<Longrightarrow> unwrap_wrapped w escaped P = Inr (Payload P)"
proof -
  assume len: "length P < 65536"
  obtain c where c: "checksum \<lparr>data = P\<rparr> = Inr c" and v: "verify \<lparr>data = P\<rparr> c"
    by (rule checksum_byte_verifies)
  show ?thesis
    using unwrap_frame [OF v len] by (simp add: unwrap_wrapped_def wrap_def c)
qed

theorem unwrap_wrap_roundtrip_witness:
  "length [0x7E, 0x11, 0x01 :: byte] < 65536
   \<and> wrap xbee_wire True [0x7E, 0x11, 0x01] = Inr [0x7E, 0x00, 0x03, 0x7D, 0x5E, 0x7D, 0x31, 0x01, 0x6F]
   \<and> unwrap_wrapped xbee_wire True [0x7E, 0x11, 0x01] = Inr (Payload [0x7E, 0x11, 0x01])
   \<and> unwrap_wrapped xbee_wire False [0x7E, 0x11, 0x01] = Inr (Payload [0x7E, 0x11, 0x01])"
proof -
  have h: "length [0x7E, 0x11, 0x01 :: byte] < 65536" by simp
  have w: "wrap xbee_wire True [0x7E, 0x11, 0x01]
      = Inr [0x7E, 0x00, 0x03, 0x7D, 0x5E, 0x7D, 0x31, 0x01, 0x6F]"
    by (simp add: wrap_def checksum_value byte_sum_def on_wire_def length_field_def
        reserved_def xbee_wire_def)
  from h w unwrap_wrap_roundtrip [OF h, of xbee_wire True]
    unwrap_wrap_roundtrip [OF h, of xbee_wire False]
  show ?thesis by blast
qed

lemma checksum_empty: "checksum \<lparr>data = []\<rparr> = Inr 0xFF"
  by (simp add: checksum_value byte_sum_def)

text \<open>
  C6. The checksum of the empty payload is \<open>0xFF\<close>, and the frame that wraps the empty
  payload is the delimiter, the length 0 and the checksum byte \<open>0xFF\<close>, escaped where
  escaping mode is enabled.
\<close>

theorem empty_payload_checksum:
  "checksum \<lparr>data = []\<rparr> = Inr 0xFF
   \<and> wrap w False [] = Inr [delimiter w, 0, 0, 0xFF]
   \<and> wrap w True [] = Inr (delimiter w # escape w [0, 0, 0xFF])"
  by (simp add: wrap_def checksum_empty on_wire_def length_field_def del: escape.simps)

lemma wrap_empty_xbee: "wrap xbee_wire True [] = Inr [0x7E, 0, 0, 0xFF]"
  by (simp add: wrap_def checksum_empty on_wire_def length_field_def reserved_def xbee_wire_def)

section \<open>Dispatching\<close>

lemma dispatch_round_filter:
  "dispatch_round regs msg =
     map (\<lambda>r. Call (callback r) (reg_name r) msg) (filter (\<lambda>r. predicate r msg) regs)"
  by (induction regs) simp_all

lemma calls_of_absent_name:
  "n \<notin> reg_name ` set regs \<Longrightarrow> filter (\<lambda>c. call_name c = n) (dispatch_round regs msg) = []"
  by (induction regs) auto

lemma calls_of_registration:
  "distinct (map reg_name regs) \<Longrightarrow> r \<in> set regs \<Longrightarrow>
     filter (\<lambda>c. call_name c = reg_name r) (dispatch_round regs msg) =
       (if predicate r msg then [Call (callback r) (reg_name r) msg] else [])"
proof (induction regs)
  case Nil
  then show ?case by simp
next
  case (Cons a regs)
  show ?case
  proof (cases "r = a")
    case True
    from Cons.prems(1) have "reg_name a \<notin> reg_name ` set regs" by simp
    then show ?thesis using True by (simp add: calls_of_absent_name)
  next
    case False
    with Cons.prems have r: "r \<in> set regs" and d: "distinct (map reg_name regs)" by simp_all
    from Cons.prems(1) r have "reg_name a \<noteq> reg_name r" by auto
    then show ?thesis using Cons.IH [OF d r] by simp
  qed
qed

lemma calls_are_matches:
  "c \<in> set (dispatch_round regs msg) \<Longrightarrow>
     \<exists>r \<in> set regs. predicate r msg \<and> c = Call (callback r) (reg_name r) msg"
  by (auto simp add: dispatch_round_filter)

text \<open>Registering keeps the names of the registry unique.\<close>

lemma distinct_register:
  "distinct (map reg_name regs) \<Longrightarrow> distinct (map reg_name (register n cb p regs))"
  by (auto simp add: register_def distinct_map_filter)

text \<open>
  C5. In one dispatch round over one message, with the names of the registry unique,
  the calls made under a registration's name are one call of its callback with its
  name and the message where its predicate is true of the message, and none where it
  is false; every call made is such a call; and of three registrations whose
  predicates are true, false and true, exactly the first and the third callback are
  invoked.
\<close>

theorem dispatch_round_calls_matching:
  "distinct (map reg_name regs) \<Longrightarrow>
     (\<forall>r \<in> set regs.
        filter (\<lambda>c. call_name c = reg_name r) (dispatch_round regs msg) =
          (if predicate r msg then [Call (callback r) (reg_name r) msg] else []))
     \<and> (\<forall>c \<in> set (dispatch_round regs msg).
          \<exists>r \<in> set regs. predicate r msg \<and> c = Call (callback r) (reg_name r) msg)
     \<and> (\<forall>r1 r2 r3.
          regs = [r1, r2, r3] \<and> predicate r1 msg \<and> \<not> predicate r2 msg \<and> predicate r3 msg
          \<longrightarrow> dispatch_round regs msg =
                [Call (callback r1) (reg_name r1) msg, Call (callback r3) (reg_name r3) msg])"
  using calls_of_registration [of regs _ msg] calls_are_matches [of _ regs msg]
  by auto

theorem dispatch_round_three_callbacks:
  "(let regs = register ''test3'' (3::int) (\<lambda>m. True)
                 (register ''test2'' 2 (\<lambda>m. False)
                   (register ''test1'' 1 (\<lambda>m. True) []))
    in distinct (map reg_name regs)
       \<and> map callback regs = [1, 2, 3]
       \<and> dispatch_round regs (42::nat) = [Call 1 ''test1'' 42, Call 3 ''test3'' 42]
       \<and> filter (\<lambda>c. call_name c = ''test2'') (dispatch_round regs 42) = [])"
proof -
  let ?r1 = "\<lparr>reg_name = ''test1'', callback = 1::int, predicate = \<lambda>m::nat. True\<rparr>"
  let ?r2 = "\<lparr>reg_name = ''test2'', callback = 2::int, predicate = \<lambda>m::nat. False\<rparr>"
  let ?r3 = "\<lparr>reg_name = ''test3'', callback = 3::int, predicate = \<lambda>m::nat. True\<rparr>"
  have regs: "register ''test3'' (3::int) (\<lambda>m. True)
                 (register ''test2'' 2 (\<lambda>m. False)
                   (register ''test1'' 1 (\<lambda>m::nat. True) [])) = [?r1, ?r2, ?r3]"
    by (simp add: register_def)
  have d: "distinct (map reg_name [?r1, ?r2, ?r3])"
    by simp
  note t = dispatch_round_calls_matching [OF d, of 42]
  from t have "filter (\<lambda>c. call_name c = reg_name ?r2) (dispatch_round [?r1, ?r2, ?r3] 42) = []"
    by simp
  moreover from t have "dispatch_round [?r1, ?r2, ?r3] 42 = [Call 1 ''test1'' 42, Call 3 ''test3'' 42]"
    by simp
  ultimately show ?thesis
    using d by (simp add: regs Let_def)
qed

end
